theory Spec2Isabelle
  imports Main
begin

section \<open>Lifecycle states\<close>

text \<open>
  Modelled from the spec: the enumerations of \<^verbatim>\<open>limbus.core.states\<close> are imported by
  \<^verbatim>\<open>pipeline.py\<close> but are not part of the sources. \<open>PipelineState\<close> has the seven members the
  scheduler uses, \<open>VerboseMode\<close> has \<open>DISABLED\<close>, a pipeline-level mode and a per-component
  mode.
\<close>

datatype PipelineState =
  CREATED | INITIALIZING | RUNNING | PAUSED | ENDED | FORCED_STOP | ERROR

datatype VerboseMode = DISABLED | PIPELINE | COMPONENT

text \<open>The \<^verbatim>\<open>name\<close> attribute of a member of the Python enumeration.\<close>

fun state_name :: "PipelineState \<Rightarrow> string" where
  "state_name CREATED = ''CREATED''"
| "state_name INITIALIZING = ''INITIALIZING''"
| "state_name RUNNING = ''RUNNING''"
| "state_name PAUSED = ''PAUSED''"
| "state_name ENDED = ''ENDED''"
| "state_name FORCED_STOP = ''FORCED_STOP''"
| "state_name ERROR = ''ERROR''"

section \<open>Components\<close>

text \<open>
  Modelled from the spec: the class \<^verbatim>\<open>Component\<close> and the enumeration \<^verbatim>\<open>ComponentState\<close> of
  \<^verbatim>\<open>limbus.core.component\<close> are not part of the sources. A component exposes a count of
  completed iterations (\<^verbatim>\<open>counter\<close>), the stopping iteration it computed for itself
  (\<^verbatim>\<open>stopping_iteration\<close>), a settable execution state, a settable verbosity flag and a
  reference to its owning scheduler. The scheduler writes the states \<open>PAUSED\<close>, \<open>READY\<close>,
  \<open>FORCED_STOP\<close> and \<open>STOPPED_AT_ITER\<close>; every state the component gives itself while doing
  its own work is \<open>Comp_OTHER n\<close>.
\<close>

datatype ComponentState =
  Comp_READY | Comp_PAUSED | Comp_FORCED_STOP | Comp_STOPPED_AT_ITER | Comp_OTHER nat

record Component =
  c_counter :: int
  c_stopping_iteration :: int
  c_state :: ComponentState
  c_verbose :: bool
  c_pipeline :: bool

text \<open>A component is used through a reference: the identity of the Python object.\<close>

type_synonym ref = nat

section \<open>The state tracker (class \<^verbatim>\<open>_PipelineState\<close>)\<close>

record PipelineState_obj =
  s_state :: PipelineState
  s_verbose :: VerboseMode

text \<open>\<^verbatim>\<open>_logger\<close>: the lines handed to \<^verbatim>\<open>log.info\<close>, none when the verbose mode is disabled.\<close>

definition logger :: "PipelineState_obj \<Rightarrow> PipelineState \<Rightarrow> string option \<Rightarrow> string list" where
  "logger self st msg =
     (if s_verbose self \<noteq> DISABLED then
        (case msg of
           None \<Rightarrow> ['' '' @ state_name st]
         | Some m \<Rightarrow> ['' '' @ state_name st @ '': '' @ m])
      else [])"

text \<open>
  \<^verbatim>\<open>__call__\<close>: replaces the held state, then logs the state now held. The result is the
  updated tracker and the lines emitted.
\<close>

definition call :: "PipelineState_obj \<Rightarrow> PipelineState \<Rightarrow> string option
    \<Rightarrow> PipelineState_obj \<times> string list" where
  "call self st msg =
     (let self' = self\<lparr>s_state := st\<rparr>
      in (self', logger self' (s_state self') msg))"

section \<open>The scheduler (class \<^verbatim>\<open>Pipeline\<close>)\<close>

text \<open>
  The attributes of a \<^verbatim>\<open>Pipeline\<close> object. An \<^verbatim>\<open>asyncio.Event\<close> is its flag. The set
  \<^verbatim>\<open>_nodes\<close> is a duplicate-free list of references.
\<close>

record Pipeline =
  p_nodes :: "ref list"
  p_resume_event :: bool
  p_stop_event :: bool
  p_state :: PipelineState_obj
  p_counter :: int
  p_min_number_of_iters_to_run :: int

text \<open>
  The methods mutate the pipeline object, the component objects its references denote and
  the output of the logger: together they are the state the model passes along.
\<close>

record world =
  pipeline :: Pipeline
  objects :: "ref \<Rightarrow> Component"
  log_lines :: "string list"

text \<open>\<^verbatim>\<open>Pipeline.__init__\<close>, with the component objects that exist and an empty log.\<close>

definition init :: "(ref \<Rightarrow> Component) \<Rightarrow> world" where
  "init h =
     \<lparr>pipeline =
        \<lparr>p_nodes = [], p_resume_event = False, p_stop_event = False,
         p_state = \<lparr>s_state = CREATED, s_verbose = DISABLED\<rparr>,
         p_counter = 0, p_min_number_of_iters_to_run = 0\<rparr>,
      objects = h, log_lines = []\<rparr>"

text \<open>The read-only properties \<^verbatim>\<open>counter\<close> and \<^verbatim>\<open>state\<close>.\<close>

definition counter :: "world \<Rightarrow> int" where
  "counter w = p_counter (pipeline w)"

definition state :: "world \<Rightarrow> PipelineState" where
  "state w = s_state (p_state (pipeline w))"

text \<open>\<^verbatim>\<open>self._state(st, msg)\<close>: the single entry point for a transition.\<close>

definition set_pipeline_state :: "PipelineState \<Rightarrow> string option \<Rightarrow> world \<Rightarrow> world" where
  "set_pipeline_state st msg w =
     (case call (p_state (pipeline w)) st msg of
        (tracker, emitted) \<Rightarrow>
          w\<lparr>pipeline := (pipeline w)\<lparr>p_state := tracker\<rparr>,
            log_lines := log_lines w @ emitted\<rparr>)"

text \<open>
  Modelled from the spec: the methods \<^verbatim>\<open>set_state\<close> and \<^verbatim>\<open>set_pipeline\<close> and the setter of
  \<^verbatim>\<open>verbose\<close> of the absent class \<^verbatim>\<open>Component\<close> each write one attribute of the object.
\<close>

definition set_state :: "ref \<Rightarrow> ComponentState \<Rightarrow> world \<Rightarrow> world" where
  "set_state r st w = w\<lparr>objects := (objects w)(r := (objects w r)\<lparr>c_state := st\<rparr>)\<rparr>"

definition set_pipeline :: "ref \<Rightarrow> world \<Rightarrow> world" where
  "set_pipeline r w = w\<lparr>objects := (objects w)(r := (objects w r)\<lparr>c_pipeline := True\<rparr>)\<rparr>"

definition set_verbose :: "ref \<Rightarrow> bool \<Rightarrow> world \<Rightarrow> world" where
  "set_verbose r b w = w\<lparr>objects := (objects w)(r := (objects w r)\<lparr>c_verbose := b\<rparr>)\<rparr>"

subsection \<open>Stopping iteration and hooks\<close>

definition get_component_stopping_iteration :: "world \<Rightarrow> ref \<Rightarrow> int" where
  "get_component_stopping_iteration w component =
     (if p_min_number_of_iters_to_run (pipeline w) > 0
      then c_counter (objects w component) + p_min_number_of_iters_to_run (pipeline w)
      else 0)"

text \<open>
  \<^verbatim>\<open>before_component_hook\<close> awaits the resume event. When the event is set the hook runs to
  its end; otherwise the coroutine is suspended at the \<^verbatim>\<open>await\<close>, after it has written
  \<open>PAUSED\<close>, and \<open>before_component_hook_resumed\<close> is the rest of its body, run once it is woken.
\<close>

datatype 'a awaited = Completed 'a | Suspended 'a

definition before_component_hook :: "ref \<Rightarrow> world \<Rightarrow> world awaited" where
  "before_component_hook component w =
     (let w1 = (if \<not> p_resume_event (pipeline w) then set_state component Comp_PAUSED w else w)
      in if p_resume_event (pipeline w1)
         then Completed (set_state component Comp_READY w1)
         else Suspended w1)"

definition before_component_hook_resumed :: "ref \<Rightarrow> world \<Rightarrow> world" where
  "before_component_hook_resumed component w = set_state component Comp_READY w"

definition after_component_hook :: "ref \<Rightarrow> world \<Rightarrow> world" where
  "after_component_hook component w =
     (if p_stop_event (pipeline w) then set_state component Comp_FORCED_STOP w
      else
        let w1 = w\<lparr>pipeline := (pipeline w)
                   \<lparr>p_counter := max (counter w) (c_counter (objects w component))\<rparr>\<rparr>
        in if p_min_number_of_iters_to_run (pipeline w1) \<noteq> 0
              \<and> c_counter (objects w1 component) \<ge> c_stopping_iteration (objects w1 component)
           then set_state component Comp_STOPPED_AT_ITER w1
           else w1)"

subsection \<open>Registering components\<close>

text \<open>The argument of \<^verbatim>\<open>add_nodes\<close> is one component or a list of components.\<close>

datatype components_arg = One ref | Many "ref list"

definition set_add :: "ref \<Rightarrow> ref list \<Rightarrow> ref list" where
  "set_add r rs = (if r \<in> set rs then rs else rs @ [r])"

definition add_nodes :: "components_arg \<Rightarrow> world \<Rightarrow> world" where
  "add_nodes components w =
     (let components' = (case components of One r \<Rightarrow> [r] | Many rs \<Rightarrow> rs)
      in w\<lparr>pipeline := (pipeline w)
            \<lparr>p_nodes := fold set_add components' (p_nodes (pipeline w))\<rparr>\<rparr>)"

subsection \<open>Pause, resume, stop\<close>

definition pause :: "world \<Rightarrow> world" where
  "pause w =
     (if p_resume_event (pipeline w) then
        (let w1 = set_pipeline_state PAUSED None w
         in w1\<lparr>pipeline := (pipeline w1)\<lparr>p_resume_event := False\<rparr>\<rparr>)
      else w)"

definition resume :: "world \<Rightarrow> world" where
  "resume w =
     (if \<not> p_resume_event (pipeline w) then
        (let w1 = set_pipeline_state RUNNING None w
         in w1\<lparr>pipeline := (pipeline w1)\<lparr>p_resume_event := True\<rparr>\<rparr>)
      else w)"

definition stop :: "world \<Rightarrow> world" where
  "stop w =
     (let w1 = resume w;
          w2 = w1\<lparr>pipeline := (pipeline w1)\<lparr>p_stop_event := True\<rparr>\<rparr>
      in set_pipeline_state FORCED_STOP None w2)"

subsection \<open>Verbose mode\<close>

definition set_verbose_mode :: "VerboseMode \<Rightarrow> world \<Rightarrow> world" where
  "set_verbose_mode mode w =
     (if s_verbose (p_state (pipeline w)) = mode then w
      else
        let w1 = w\<lparr>pipeline := (pipeline w)
                   \<lparr>p_state := (p_state (pipeline w))\<lparr>s_verbose := mode\<rparr>\<rparr>\<rparr>
        in fold (\<lambda>node. set_verbose node (s_verbose (p_state (pipeline w1)) = COMPONENT))
             (p_nodes (pipeline w1)) w1)"

subsection \<open>Running\<close>

text \<open>
  What awaiting can do to the caller: the awaited tasks finish and leave a state, one of
  them raises, or they never finish.
\<close>

datatype 'a outcome = Returned 'a | Raised | Pending

text \<open>
  The component loops are not part of the scheduler. \<open>gather_tasks\<close> is everything that
  happens while \<^verbatim>\<open>asyncio.gather(*tasks)\<close> is awaited, \<open>gather_pending\<close> everything that
  happens while the pending tasks are awaited; both are parameters. A coroutine is cut at
  its \<^verbatim>\<open>await\<close>s: each piece runs without interruption.

  \<open>start\<close> is the nested coroutine of \<^verbatim>\<open>async_run\<close>. \<open>start_begin\<close> is its first piece: it
  binds every node and resumes. Creating the coroutine \<^verbatim>\<open>node()\<close> runs nothing.
\<close>

definition start_begin :: "world \<Rightarrow> world" where
  "start_begin w =
     (let w1 = fold set_pipeline (p_nodes (pipeline w)) w
      in resume w1)"

definition start_no_components :: "world \<Rightarrow> world" where
  "start_no_components w =
     set_pipeline_state ERROR (Some ''No components added to the pipeline'') w"

definition start :: "(world \<Rightarrow> world outcome) \<Rightarrow> (world \<Rightarrow> world outcome) \<Rightarrow> world
    \<Rightarrow> world outcome" where
  "start gather_tasks gather_pending w =
     (let w1 = start_begin w
      in if length (p_nodes (pipeline w1)) = 0
         then Returned (start_no_components w1)
         else (case gather_tasks w1 of
                 Returned w2 \<Rightarrow> gather_pending w2
               | Raised \<Rightarrow> Raised
               | Pending \<Rightarrow> Pending))"

text \<open>
  \<open>async_run_begin\<close> is what \<^verbatim>\<open>async_run\<close> does before it awaits \<^verbatim>\<open>start()\<close>: it records the
  number of iterations, clears the stop event and moves to \<open>INITIALIZING\<close>. \<open>async_run_end\<close>
  is what it does once \<^verbatim>\<open>start()\<close> has returned; its result is the value returned and the
  state left.
\<close>

definition async_run_begin :: "int \<Rightarrow> world \<Rightarrow> world" where
  "async_run_begin iters w =
     (let w1 = w\<lparr>pipeline := (pipeline w)\<lparr>p_min_number_of_iters_to_run := iters\<rparr>\<rparr>;
          w2 = w1\<lparr>pipeline := (pipeline w1)\<lparr>p_stop_event := False\<rparr>\<rparr>
      in set_pipeline_state INITIALIZING None w2)"

definition async_run_end :: "world \<Rightarrow> PipelineState \<times> world" where
  "async_run_end w =
     (if state w \<in> set [FORCED_STOP, ERROR] then (state w, w)
      else (let w1 = set_pipeline_state ENDED None w in (state w1, w1)))"

definition async_run :: "(world \<Rightarrow> world outcome) \<Rightarrow> (world \<Rightarrow> world outcome) \<Rightarrow> int \<Rightarrow> world
    \<Rightarrow> (PipelineState \<times> world) outcome" where
  "async_run gather_tasks gather_pending iters w =
     (case start gather_tasks gather_pending (async_run_begin iters w) of
        Returned w1 \<Rightarrow> Returned (async_run_end w1)
      | Raised \<Rightarrow> Raised
      | Pending \<Rightarrow> Pending)"

text \<open>
  Modelled from the spec: \<^verbatim>\<open>async_utils.run_coroutine\<close> is not part of the sources; it blocks
  until the coroutine it is given has finished. \<open>run\<close> then reads the state of the pipeline.
\<close>

definition run :: "(world \<Rightarrow> world outcome) \<Rightarrow> (world \<Rightarrow> world outcome) \<Rightarrow> int \<Rightarrow> world
    \<Rightarrow> (PipelineState \<times> world) outcome" where
  "run gather_tasks gather_pending iters w =
     (case async_run gather_tasks gather_pending iters w of
        Returned (_, w') \<Rightarrow> Returned (state w', w')
      | Raised \<Rightarrow> Raised
      | Pending \<Rightarrow> Pending)"

section \<open>Executions\<close>

text \<open>
  Everything that can happen to the scheduler between two observations: a call of one of
  its methods by the operator, a hook called by a component, a suspended before-hook being
  woken, a component rewriting its own attributes while it works, and the pieces of
  \<^verbatim>\<open>async_run\<close>.
\<close>

datatype event =
    Call_add_nodes components_arg
  | Call_pause
  | Call_resume
  | Call_stop
  | Call_set_verbose_mode VerboseMode
  | Call_before_component_hook ref
  | Wake_before_component_hook ref
  | Call_after_component_hook ref
  | Component_work ref Component
  | Run_begin int
  | Start_begin
  | Start_no_components
  | Run_end

fun step :: "event \<Rightarrow> world \<Rightarrow> world" where
  "step (Call_add_nodes a) w = add_nodes a w"
| "step Call_pause w = pause w"
| "step Call_resume w = resume w"
| "step Call_stop w = stop w"
| "step (Call_set_verbose_mode m) w = set_verbose_mode m w"
| "step (Call_before_component_hook r) w =
     (case before_component_hook r w of Completed w' \<Rightarrow> w' | Suspended w' \<Rightarrow> w')"
| "step (Wake_before_component_hook r) w = before_component_hook_resumed r w"
| "step (Call_after_component_hook r) w = after_component_hook r w"
| "step (Component_work r c) w = w\<lparr>objects := (objects w)(r := c)\<rparr>"
| "step (Run_begin iters) w = async_run_begin iters w"
| "step Start_begin w = start_begin w"
| "step Start_no_components w = start_no_components w"
| "step Run_end w = snd (async_run_end w)"

definition exec :: "event list \<Rightarrow> world \<Rightarrow> world" where
  "exec evs w = fold step evs w"

section \<open>Sample objects\<close>

definition sample_component :: Component where
  "sample_component =
     \<lparr>c_counter = 5, c_stopping_iteration = 5, c_state = Comp_OTHER 0,
      c_verbose = False, c_pipeline = False\<rparr>"

definition sample_world :: "bool \<Rightarrow> bool \<Rightarrow> int \<Rightarrow> world" where
  "sample_world gate flag iters =
     \<lparr>pipeline =
        \<lparr>p_nodes = [0], p_resume_event = gate, p_stop_event = flag,
         p_state = \<lparr>s_state = RUNNING, s_verbose = PIPELINE\<rparr>,
         p_counter = 3, p_min_number_of_iters_to_run = iters\<rparr>,
      objects = (\<lambda>_. sample_component), log_lines = []\<rparr>"

section \<open>Stopping iteration\<close>

text \<open>
  C3. For every component, the stopping iteration is the component's completed count plus
  the minimum number of iterations when that number is positive, and 0 when it is 0,
  whatever the completed count.
\<close>

theorem stopping_iteration_bounded_or_zero:
  "(p_min_number_of_iters_to_run (pipeline w) > 0 \<longrightarrow>
      get_component_stopping_iteration w component
        = c_counter (objects w component) + p_min_number_of_iters_to_run (pipeline w))
   \<and> (p_min_number_of_iters_to_run (pipeline w) = 0 \<longrightarrow>
      get_component_stopping_iteration w component = 0)"
  by (simp add: get_component_stopping_iteration_def)

theorem stopping_iteration_bounded_or_zero_witness:
  "p_min_number_of_iters_to_run (pipeline (sample_world True False 2)) > 0
   \<and> get_component_stopping_iteration (sample_world True False 2) 0 = 7
   \<and> p_min_number_of_iters_to_run (pipeline (sample_world True False 0)) = 0
   \<and> get_component_stopping_iteration (sample_world True False 0) 0 = 0"
  using stopping_iteration_bounded_or_zero [of "sample_world True False 2" 0]
    stopping_iteration_bounded_or_zero [of "sample_world True False 0" 0]
  by (simp add: sample_world_def sample_component_def)

section \<open>Effect of the building blocks\<close>

lemma set_pipeline_state_eq:
  "set_pipeline_state st msg w =
     w\<lparr>pipeline := (pipeline w)\<lparr>p_state := (p_state (pipeline w))\<lparr>s_state := st\<rparr>\<rparr>,
       log_lines := log_lines w @ logger ((p_state (pipeline w))\<lparr>s_state := st\<rparr>) st msg\<rparr>"
  by (simp add: set_pipeline_state_def call_def Let_def)

lemma counter_set_pipeline_state [simp]: "counter (set_pipeline_state st msg w) = counter w"
  by (simp add: set_pipeline_state_eq counter_def)

lemma counter_set_state [simp]: "counter (set_state r st w) = counter w"
  by (simp add: set_state_def counter_def)

lemma counter_fold_set_pipeline [simp]: "counter (fold set_pipeline rs w) = counter w"
  by (induction rs arbitrary: w) (simp_all add: set_pipeline_def counter_def)

lemma counter_fold_set_verbose [simp]: "counter (fold (\<lambda>n. set_verbose n b) rs w) = counter w"
  by (induction rs arbitrary: w) (simp_all add: set_verbose_def counter_def)

lemma counter_pause [simp]: "counter (pause w) = counter w"
  by (simp add: pause_def Let_def set_pipeline_state_eq counter_def)

lemma counter_resume [simp]: "counter (resume w) = counter w"
  by (simp add: resume_def Let_def set_pipeline_state_eq counter_def)

lemma counter_stop [simp]: "counter (stop w) = counter w"
proof -
  have "counter ((resume w)\<lparr>pipeline := (pipeline (resume w))\<lparr>p_stop_event := True\<rparr>\<rparr>) = counter (resume w)"
    by (simp add: counter_def)
  then show ?thesis by (simp add: stop_def Let_def)
qed

lemma counter_add_nodes [simp]: "counter (add_nodes a w) = counter w"
  by (simp add: add_nodes_def Let_def counter_def)

lemma counter_set_verbose_mode [simp]: "counter (set_verbose_mode m w) = counter w"
proof (cases "s_verbose (p_state (pipeline w)) = m")
  case True
  then show ?thesis by (simp add: set_verbose_mode_def)
next
  case False
  then show ?thesis by (simp add: set_verbose_mode_def Let_def) (simp add: counter_def)
qed

lemma counter_before [simp]:
  "counter (case before_component_hook r w of Completed w' \<Rightarrow> w' | Suspended w' \<Rightarrow> w') = counter w"
  by (simp add: before_component_hook_def Let_def)

lemma counter_before_resumed [simp]: "counter (before_component_hook_resumed r w) = counter w"
  by (simp add: before_component_hook_resumed_def)

lemma counter_after:
  "counter (after_component_hook r w) =
     (if p_stop_event (pipeline w) then counter w else max (counter w) (c_counter (objects w r)))"
  by (simp add: after_component_hook_def Let_def) (simp add: counter_def)

lemma counter_async_run_begin [simp]: "counter (async_run_begin iters w) = counter w"
  by (simp add: async_run_begin_def Let_def set_pipeline_state_eq counter_def)

lemma counter_start_begin [simp]: "counter (start_begin w) = counter w"
  by (simp add: start_begin_def Let_def)

lemma counter_start_no_components [simp]: "counter (start_no_components w) = counter w"
  by (simp add: start_no_components_def)

lemma counter_async_run_end [simp]: "counter (snd (async_run_end w)) = counter w"
  by (simp add: async_run_end_def Let_def)

lemma counter_objects_update [simp]: "counter (w\<lparr>objects := h\<rparr>) = counter w"
  by (simp add: counter_def)

lemma counter_step:
  "counter (step ev w) =
     (case ev of
        Call_after_component_hook r \<Rightarrow>
          if p_stop_event (pipeline w) then counter w
          else max (counter w) (c_counter (objects w r))
      | _ \<Rightarrow> counter w)"
  by (cases ev) (simp_all add: counter_after)

lemma counter_step_le: "counter w \<le> counter (step ev w)"
  by (cases ev) (simp_all add: counter_after)

lemma counter_exec_le: "counter w \<le> counter (exec evs w)"
  unfolding exec_def
proof (induction evs arbitrary: w)
  case Nil
  show ?case by simp
next
  case (Cons ev evs)
  have "counter w \<le> counter (step ev w)" by (rule counter_step_le)
  also have "\<dots> \<le> counter (fold step evs (step ev w))" by (rule Cons.IH)
  finally show ?case by simp
qed

lemma pipeline_set_state [simp]: "pipeline (set_state r st w) = pipeline w"
  by (simp add: set_state_def)

lemma log_lines_set_state [simp]: "log_lines (set_state r st w) = log_lines w"
  by (simp add: set_state_def)

lemma objects_set_state [simp]:
  "objects (set_state r st w) = (objects w)(r := (objects w r)\<lparr>c_state := st\<rparr>)"
  by (simp add: set_state_def)

lemma pipeline_fold_set_pipeline [simp]: "pipeline (fold set_pipeline rs w) = pipeline w"
  by (induction rs arbitrary: w) (simp_all add: set_pipeline_def)

lemma state_set_pipeline_state [simp]: "state (set_pipeline_state st msg w) = st"
  by (simp add: set_pipeline_state_eq state_def)

lemma nodes_set_pipeline_state [simp]:
  "p_nodes (pipeline (set_pipeline_state st msg w)) = p_nodes (pipeline w)"
  by (simp add: set_pipeline_state_eq)

lemma nodes_resume [simp]: "p_nodes (pipeline (resume w)) = p_nodes (pipeline w)"
  by (simp add: resume_def Let_def)

lemma nodes_async_run_begin [simp]:
  "p_nodes (pipeline (async_run_begin iters w)) = p_nodes (pipeline w)"
  by (simp add: async_run_begin_def Let_def)

lemma nodes_start_begin [simp]: "p_nodes (pipeline (start_begin w)) = p_nodes (pipeline w)"
  by (simp add: start_begin_def Let_def)

lemma resume_event_resume [simp]: "p_resume_event (pipeline (resume w))"
  by (simp add: resume_def Let_def set_pipeline_state_eq)

lemma resume_event_pause [simp]: "\<not> p_resume_event (pipeline (pause w))"
  by (simp add: pause_def Let_def set_pipeline_state_eq)

section \<open>Running an empty pipeline\<close>

text \<open>
  C1. Running a pipeline without registered components returns \<open>ERROR\<close> and leaves the
  pipeline in the state \<open>ERROR\<close>, from \<open>async_run\<close> and from \<open>run\<close>, for every number of
  iterations; the result is a returned value, whatever awaiting tasks would have done.
\<close>

theorem run_without_components_returns_error:
  "p_nodes (pipeline w) = [] \<Longrightarrow>
     async_run gather_tasks gather_pending iters w
       = Returned (ERROR, start_no_components (start_begin (async_run_begin iters w)))
   \<and> run gather_tasks gather_pending iters w
       = Returned (ERROR, start_no_components (start_begin (async_run_begin iters w)))
   \<and> state (start_no_components (start_begin (async_run_begin iters w))) = ERROR"
proof -
  assume empty: "p_nodes (pipeline w) = []"
  let ?w = "start_no_components (start_begin (async_run_begin iters w))"
  have st: "state ?w = ERROR"
    by (simp add: start_no_components_def)
  have "start gather_tasks gather_pending (async_run_begin iters w) = Returned ?w"
    using empty by (simp add: start_def Let_def)
  then have ar: "async_run gather_tasks gather_pending iters w = Returned (ERROR, ?w)"
    using st by (simp add: async_run_def async_run_end_def)
  then have "run gather_tasks gather_pending iters w = Returned (ERROR, ?w)"
    using st by (simp add: run_def)
  with ar st show ?thesis by simp
qed

theorem run_without_components_returns_error_witness:
  "p_nodes (pipeline (init (\<lambda>_. sample_component))) = []
   \<and> async_run (\<lambda>_. Pending) (\<lambda>_. Raised) (-4) (init (\<lambda>_. sample_component))
       = Returned (ERROR, start_no_components
            (start_begin (async_run_begin (-4) (init (\<lambda>_. sample_component)))))
   \<and> run (\<lambda>_. Pending) (\<lambda>_. Raised) (-4) (init (\<lambda>_. sample_component))
       = Returned (ERROR, start_no_components
            (start_begin (async_run_begin (-4) (init (\<lambda>_. sample_component)))))
   \<and> state (start_no_components
        (start_begin (async_run_begin (-4) (init (\<lambda>_. sample_component))))) = ERROR"
proof -
  have h: "p_nodes (pipeline (init (\<lambda>_. sample_component))) = []"
    by (simp add: init_def)
  show ?thesis
    using h run_without_components_returns_error
      [OF h, of "\<lambda>_. Pending" "\<lambda>_. Raised" "-4"]
    by simp
qed

section \<open>Stopping\<close>

text \<open>
  C2. From every state, \<open>stop\<close> resumes, then sets the stop event, then moves the pipeline to
  \<open>FORCED_STOP\<close>. Afterwards the resume event and the stop event are set and the state is
  \<open>FORCED_STOP\<close>; the log shows \<open>RUNNING\<close> before \<open>FORCED_STOP\<close> when the pipeline was
  paused. A component's next before-hook is not suspended and its next after-hook marks it
  \<open>FORCED_STOP\<close>.
\<close>

theorem stop_resumes_flags_and_transitions:
  "stop w = set_pipeline_state FORCED_STOP None
              ((resume w)\<lparr>pipeline := (pipeline (resume w))\<lparr>p_stop_event := True\<rparr>\<rparr>)
   \<and> p_resume_event (pipeline (stop w))
   \<and> p_stop_event (pipeline (stop w))
   \<and> state (stop w) = FORCED_STOP
   \<and> log_lines (stop w) = log_lines w @
        (if s_verbose (p_state (pipeline w)) = DISABLED then []
         else (if p_resume_event (pipeline w) then [] else ['' RUNNING'']) @ ['' FORCED_STOP''])
   \<and> before_component_hook component (stop w)
        = Completed (set_state component Comp_READY (stop w))
   \<and> after_component_hook component (stop w)
        = set_state component Comp_FORCED_STOP (stop w)"
proof -
  have order: "stop w = set_pipeline_state FORCED_STOP None
              ((resume w)\<lparr>pipeline := (pipeline (resume w))\<lparr>p_stop_event := True\<rparr>\<rparr>)"
    by (simp add: stop_def Let_def)
  have gate: "p_resume_event (pipeline (stop w))"
    by (simp add: order set_pipeline_state_eq)
  have flag: "p_stop_event (pipeline (stop w))"
    by (simp add: order set_pipeline_state_eq)
  have st: "state (stop w) = FORCED_STOP"
    by (simp add: order)
  have lg: "log_lines (stop w) = log_lines w @
        (if s_verbose (p_state (pipeline w)) = DISABLED then []
         else (if p_resume_event (pipeline w) then [] else ['' RUNNING'']) @ ['' FORCED_STOP''])"
    by (simp add: order set_pipeline_state_eq resume_def Let_def logger_def)
  have before: "before_component_hook component (stop w)
        = Completed (set_state component Comp_READY (stop w))"
    using gate by (simp add: before_component_hook_def Let_def)
  have after: "after_component_hook component (stop w)
        = set_state component Comp_FORCED_STOP (stop w)"
    using flag by (simp add: after_component_hook_def)
  from order gate flag st lg before after show ?thesis by blast
qed

theorem stop_resumes_flags_and_transitions_witness:
  "\<not> p_resume_event (pipeline (sample_world False False 0))
   \<and> p_resume_event (pipeline (stop (sample_world False False 0)))
   \<and> p_stop_event (pipeline (stop (sample_world False False 0)))
   \<and> state (stop (sample_world False False 0)) = FORCED_STOP
   \<and> log_lines (stop (sample_world False False 0)) = ['' RUNNING'', '' FORCED_STOP'']
   \<and> c_state (objects (after_component_hook 0 (stop (sample_world False False 0))) 0)
       = Comp_FORCED_STOP"
proof -
  note t = stop_resumes_flags_and_transitions [of "sample_world False False 0" 0]
  have paused: "\<not> p_resume_event (pipeline (sample_world False False 0))"
    by (simp add: sample_world_def)
  have verbose: "s_verbose (p_state (pipeline (sample_world False False 0))) = PIPELINE"
    and unlogged: "log_lines (sample_world False False 0) = []"
    by (simp_all add: sample_world_def)
  from t have "log_lines (stop (sample_world False False 0))
      = log_lines (sample_world False False 0) @
        (if s_verbose (p_state (pipeline (sample_world False False 0))) = DISABLED then []
         else (if p_resume_event (pipeline (sample_world False False 0)) then []
               else ['' RUNNING'']) @ ['' FORCED_STOP''])"
    by blast
  then have lg: "log_lines (stop (sample_world False False 0)) = ['' RUNNING'', '' FORCED_STOP'']"
    by (simp add: paused verbose unlogged)
  from t have after: "after_component_hook 0 (stop (sample_world False False 0))
      = set_state 0 Comp_FORCED_STOP (stop (sample_world False False 0))"
    by blast
  from t have "p_resume_event (pipeline (stop (sample_world False False 0)))"
    and "p_stop_event (pipeline (stop (sample_world False False 0)))"
    and "state (stop (sample_world False False 0)) = FORCED_STOP"
    by blast+
  with paused lg after show ?thesis by simp
qed

section \<open>The after-hook without a stop request\<close>

text \<open>
  C4. When the stop event is not set, the after-hook sets the counter of the pipeline to the
  maximum of its value and the component's counter, and it writes \<open>STOPPED_AT_ITER\<close> into
  the component exactly when the minimum number of iterations is not 0 and the component's
  counter has reached its stopping iteration; otherwise no component is written. For a
  component that was not already \<open>STOPPED_AT_ITER\<close>, it holds that state afterwards if and
  only if that condition holds.
\<close>

theorem after_hook_updates_counter_and_marks_bound:
  "\<not> p_stop_event (pipeline w) \<Longrightarrow>
     counter (after_component_hook component w)
       = max (counter w) (c_counter (objects w component))
   \<and> objects (after_component_hook component w)
       = (if p_min_number_of_iters_to_run (pipeline w) \<noteq> 0
             \<and> c_counter (objects w component) \<ge> c_stopping_iteration (objects w component)
          then (objects w)(component := (objects w component)\<lparr>c_state := Comp_STOPPED_AT_ITER\<rparr>)
          else objects w)
   \<and> (c_state (objects w component) \<noteq> Comp_STOPPED_AT_ITER \<longrightarrow>
        (c_state (objects (after_component_hook component w) component) = Comp_STOPPED_AT_ITER)
         = (p_min_number_of_iters_to_run (pipeline w) \<noteq> 0
            \<and> c_counter (objects w component) \<ge> c_stopping_iteration (objects w component)))"
  by (simp add: after_component_hook_def Let_def counter_def)

theorem after_hook_updates_counter_and_marks_bound_witness:
  "\<not> p_stop_event (pipeline (sample_world True False 2))
   \<and> c_state (objects (sample_world True False 2) 0) \<noteq> Comp_STOPPED_AT_ITER
   \<and> counter (after_component_hook 0 (sample_world True False 2)) = 5
   \<and> c_state (objects (after_component_hook 0 (sample_world True False 2)) 0)
       = Comp_STOPPED_AT_ITER
   \<and> c_state (objects (after_component_hook 0 (sample_world True False 0)) 0) = Comp_OTHER 0"
proof -
  have h2: "\<not> p_stop_event (pipeline (sample_world True False 2))"
    and h0: "\<not> p_stop_event (pipeline (sample_world True False 0))"
    by (simp_all add: sample_world_def)
  show ?thesis
    using h2 after_hook_updates_counter_and_marks_bound [OF h2, of 0]
      after_hook_updates_counter_and_marks_bound [OF h0, of 0]
    by (simp add: sample_world_def sample_component_def counter_def)
qed

section \<open>The after-hook under a stop request\<close>

text \<open>
  C5. When the stop event is set, the after-hook only writes \<open>FORCED_STOP\<close> into the
  component: the component is \<open>FORCED_STOP\<close> afterwards and not \<open>STOPPED_AT_ITER\<close>, whatever
  the number of iterations and the counters are.
\<close>

theorem after_hook_forced_stop_overrides_bound:
  "p_stop_event (pipeline w) \<Longrightarrow>
     after_component_hook component w = set_state component Comp_FORCED_STOP w
   \<and> c_state (objects (after_component_hook component w) component) = Comp_FORCED_STOP
   \<and> c_state (objects (after_component_hook component w) component) \<noteq> Comp_STOPPED_AT_ITER"
  by (simp add: after_component_hook_def)

theorem after_hook_forced_stop_overrides_bound_witness:
  "p_stop_event (pipeline (sample_world True True 2))
   \<and> p_min_number_of_iters_to_run (pipeline (sample_world True True 2)) \<noteq> 0
   \<and> c_counter (objects (sample_world True True 2) 0)
        \<ge> c_stopping_iteration (objects (sample_world True True 2) 0)
   \<and> c_state (objects (after_component_hook 0 (sample_world True True 2)) 0) = Comp_FORCED_STOP"
proof -
  have h: "p_stop_event (pipeline (sample_world True True 2))"
    by (simp add: sample_world_def)
  show ?thesis
    using h after_hook_forced_stop_overrides_bound [OF h, of 0]
    by (simp add: sample_world_def sample_component_def)
qed

section \<open>Frame of the after-hook under a stop request\<close>

text \<open>
  C9. When the stop event is set, the after-hook leaves the counter of the pipeline as it
  was. The state after the call is the state before it with \<open>FORCED_STOP\<close> written into the
  state of that one component: the pipeline object, the log, every other component and
  every other attribute of the component are unchanged.
\<close>

theorem after_hook_forced_stop_frame:
  "p_stop_event (pipeline w) \<Longrightarrow>
     counter (after_component_hook component w) = counter w
   \<and> after_component_hook component w
       = w\<lparr>objects := (objects w)(component := (objects w component)\<lparr>c_state := Comp_FORCED_STOP\<rparr>)\<rparr>
   \<and> pipeline (after_component_hook component w) = pipeline w
   \<and> log_lines (after_component_hook component w) = log_lines w
   \<and> (\<forall>other. other \<noteq> component \<longrightarrow>
        objects (after_component_hook component w) other = objects w other)
   \<and> c_counter (objects (after_component_hook component w) component)
       = c_counter (objects w component)
   \<and> c_stopping_iteration (objects (after_component_hook component w) component)
       = c_stopping_iteration (objects w component)
   \<and> c_verbose (objects (after_component_hook component w) component)
       = c_verbose (objects w component)
   \<and> c_pipeline (objects (after_component_hook component w) component)
       = c_pipeline (objects w component)"
  by (simp add: after_component_hook_def set_state_def counter_def)

theorem after_hook_forced_stop_frame_witness:
  "p_stop_event (pipeline (sample_world False True 3))
   \<and> counter (after_component_hook 0 (sample_world False True 3)) = 3
   \<and> pipeline (after_component_hook 0 (sample_world False True 3))
       = pipeline (sample_world False True 3)
   \<and> (1::ref) \<noteq> 0
   \<and> objects (after_component_hook 0 (sample_world False True 3)) 1
       = objects (sample_world False True 3) 1"
proof -
  have h: "p_stop_event (pipeline (sample_world False True 3))"
    by (simp add: sample_world_def)
  show ?thesis
    using h after_hook_forced_stop_frame [OF h, of 0]
    by (simp add: sample_world_def counter_def)
qed

section \<open>The counter along an execution\<close>

text \<open>
  C6. The counter of the pipeline never decreases. A step leaves it as it was, except for an
  after-hook called with the stop event not set, which replaces it by the maximum of its
  value and the component's counter. Hence, along every execution, the counter observed
  at one point is at most the counter observed at any later point.
\<close>

theorem counter_never_decreases:
  "counter (step ev w) =
     (case ev of
        Call_after_component_hook r \<Rightarrow>
          if p_stop_event (pipeline w) then counter w
          else max (counter w) (c_counter (objects w r))
      | _ \<Rightarrow> counter w)
   \<and> counter (exec evs w) \<le> counter (exec (evs @ evs') w)"
proof
  show "counter (step ev w) =
     (case ev of
        Call_after_component_hook r \<Rightarrow>
          if p_stop_event (pipeline w) then counter w
          else max (counter w) (c_counter (objects w r))
      | _ \<Rightarrow> counter w)"
    by (rule counter_step)
  have "exec (evs @ evs') w = exec evs' (exec evs w)"
    by (simp add: exec_def)
  then show "counter (exec evs w) \<le> counter (exec (evs @ evs') w)"
    by (simp add: counter_exec_le)
qed

theorem counter_never_decreases_witness:
  "counter (exec [Run_begin 0, Start_begin, Call_after_component_hook 0] (sample_world False False 0))
     \<le> counter (exec ([Run_begin 0, Start_begin, Call_after_component_hook 0]
          @ [Call_pause, Component_work 0 (sample_component\<lparr>c_counter := 1\<rparr>),
             Call_after_component_hook 0, Call_stop, Run_end]) (sample_world False False 0))"
  using counter_never_decreases
    [of Call_pause "sample_world False False 0"
        "[Run_begin 0, Start_begin, Call_after_component_hook 0]"
        "[Call_pause, Component_work 0 (sample_component\<lparr>c_counter := 1\<rparr>),
             Call_after_component_hook 0, Call_stop, Run_end]"]
  by simp

section \<open>Pausing and resuming twice\<close>

text \<open>
  C7. \<open>pause\<close> and \<open>resume\<close> are idempotent: calling either twice in a row leaves the same
  state, log included, as calling it once. \<open>pause\<close> with the resume event cleared changes
  nothing and logs nothing, and so does \<open>resume\<close> with the resume event set.
\<close>

theorem pause_and_resume_idempotent:
  "pause (pause w) = pause w
   \<and> resume (resume w) = resume w
   \<and> (\<not> p_resume_event (pipeline w) \<longrightarrow> pause w = w)
   \<and> (p_resume_event (pipeline w) \<longrightarrow> resume w = w)"
proof -
  have closed: "\<not> p_resume_event (pipeline w) \<longrightarrow> pause w = w"
    by (simp add: pause_def)
  have opened: "p_resume_event (pipeline w) \<longrightarrow> resume w = w"
    by (simp add: resume_def)
  have "pause (pause w) = pause w"
    by (simp add: pause_def [of "pause w"])
  moreover have "resume (resume w) = resume w"
    by (simp add: resume_def [of "resume w"])
  ultimately show ?thesis using closed opened by blast
qed

theorem pause_and_resume_idempotent_witness:
  "\<not> p_resume_event (pipeline (sample_world False False 0))
   \<and> pause (sample_world False False 0) = sample_world False False 0
   \<and> p_resume_event (pipeline (sample_world True False 0))
   \<and> resume (sample_world True False 0) = sample_world True False 0
   \<and> pause (pause (sample_world True False 0)) = pause (sample_world True False 0)
   \<and> log_lines (pause (pause (sample_world True False 0))) = ['' PAUSED'']
   \<and> state (pause (pause (sample_world True False 0))) = PAUSED"
proof -
  have c: "\<not> p_resume_event (pipeline (sample_world False False 0))"
    and op: "p_resume_event (pipeline (sample_world True False 0))"
    by (simp_all add: sample_world_def)
  have one: "log_lines (pause (sample_world True False 0)) = ['' PAUSED'']
      \<and> state (pause (sample_world True False 0)) = PAUSED"
    by (simp add: pause_def Let_def set_pipeline_state_eq logger_def sample_world_def state_def)
  show ?thesis
    using c op one pause_and_resume_idempotent [of "sample_world False False 0"]
      pause_and_resume_idempotent [of "sample_world True False 0"]
    by simp
qed

section \<open>The end of a run\<close>

text \<open>
  C8. Once the nested coroutine \<open>start\<close> has returned, that is once every task has been
  waited for, \<open>async_run\<close> returns the state of the pipeline and leaves it untouched if that
  state is \<open>FORCED_STOP\<close> or \<open>ERROR\<close>; otherwise it moves the pipeline to \<open>ENDED\<close> and
  returns \<open>ENDED\<close>.
\<close>

theorem async_run_final_state:
  "start gather_tasks gather_pending (async_run_begin iters w) = Returned w' \<Longrightarrow>
     async_run gather_tasks gather_pending iters w
       = Returned (if state w' = FORCED_STOP \<or> state w' = ERROR then (state w', w')
                   else (ENDED, set_pipeline_state ENDED None w'))
   \<and> state (set_pipeline_state ENDED None w') = ENDED"
  by (simp add: async_run_def async_run_end_def Let_def)

theorem async_run_final_state_witness:
  "start (\<lambda>w. Returned (stop w)) Returned (async_run_begin 2 (sample_world False True 0))
     = Returned (stop (start_begin (async_run_begin 2 (sample_world False True 0))))
   \<and> async_run (\<lambda>w. Returned (stop w)) Returned 2 (sample_world False True 0)
     = Returned (FORCED_STOP, stop (start_begin (async_run_begin 2 (sample_world False True 0))))
   \<and> start Returned Returned (async_run_begin 2 (sample_world False True 0))
     = Returned (start_begin (async_run_begin 2 (sample_world False True 0)))
   \<and> async_run Returned Returned 2 (sample_world False True 0)
     = Returned (ENDED, set_pipeline_state ENDED None
          (start_begin (async_run_begin 2 (sample_world False True 0))))"
proof -
  have n: "p_nodes (pipeline (sample_world False True 0)) = [0]"
    by (simp add: sample_world_def)
  have s1: "start (\<lambda>w. Returned (stop w)) Returned (async_run_begin 2 (sample_world False True 0))
     = Returned (stop (start_begin (async_run_begin 2 (sample_world False True 0))))"
    by (simp add: start_def Let_def n)
  have s2: "start Returned Returned (async_run_begin 2 (sample_world False True 0))
     = Returned (start_begin (async_run_begin 2 (sample_world False True 0)))"
    by (simp add: start_def Let_def n)
  have st1: "state (stop (start_begin (async_run_begin 2 (sample_world False True 0)))) = FORCED_STOP"
    by (simp add: stop_def Let_def)
  have st2: "state (start_begin (async_run_begin 2 (sample_world False True 0))) = RUNNING"
    by (simp add: start_begin_def async_run_begin_def resume_def Let_def set_pipeline_state_eq
        set_pipeline_def state_def sample_world_def)
  show ?thesis
    using s1 s2 st1 st2 async_run_final_state [OF s1] async_run_final_state [OF s2]
    by simp
qed

section \<open>Negative numbers of iterations\<close>

text \<open>
  C10. When the recorded minimum number of iterations is negative, the stopping iteration
  of every component is 0, the same value as for a minimum of 0, while the after-hook still
  applies its bound: with the stop event not set it writes \<open>STOPPED_AT_ITER\<close> into a
  component whose counter has reached its stopping iteration.
\<close>

theorem negative_iterations_sentinel_but_bounded:
  "p_min_number_of_iters_to_run (pipeline w) < 0 \<Longrightarrow>
     get_component_stopping_iteration w component = 0
   \<and> get_component_stopping_iteration w component
       = get_component_stopping_iteration
           (w\<lparr>pipeline := (pipeline w)\<lparr>p_min_number_of_iters_to_run := 0\<rparr>\<rparr>) component
   \<and> (\<not> p_stop_event (pipeline w) \<longrightarrow>
        objects (after_component_hook component w)
          = (if c_counter (objects w component) \<ge> c_stopping_iteration (objects w component)
             then (objects w)(component := (objects w component)\<lparr>c_state := Comp_STOPPED_AT_ITER\<rparr>)
             else objects w))"
  by (simp add: get_component_stopping_iteration_def after_component_hook_def Let_def)

theorem negative_iterations_sentinel_but_bounded_witness:
  "p_min_number_of_iters_to_run (pipeline (async_run_begin (-3) (sample_world True True 0))) < 0
   \<and> get_component_stopping_iteration (async_run_begin (-3) (sample_world True True 0)) 0 = 0
   \<and> \<not> p_stop_event (pipeline (async_run_begin (-3) (sample_world True True 0)))
   \<and> c_state (objects (after_component_hook 0
        (async_run_begin (-3) (sample_world True True 0))) 0) = Comp_STOPPED_AT_ITER"
proof -
  have h: "p_min_number_of_iters_to_run
      (pipeline (async_run_begin (-3) (sample_world True True 0))) < 0"
    and f: "\<not> p_stop_event (pipeline (async_run_begin (-3) (sample_world True True 0)))"
    and o: "objects (async_run_begin (-3) (sample_world True True 0)) = (\<lambda>_. sample_component)"
    by (simp_all add: async_run_begin_def Let_def set_pipeline_state_eq sample_world_def)
  show ?thesis
    using h f negative_iterations_sentinel_but_bounded [OF h, of 0]
    by (simp add: o sample_component_def)
qed

end
